theory Spec2Isabelle
  imports Main "HOL-Library.Word"
begin

section \<open>Shared helpers of the BERT plugins (plugin/common/bertCommon.h)\<close>

text \<open>
  A shallow embedding of the host-side helpers of \<^verbatim>\<open>bertCommon.h\<close>: the packed-mask
  size lookup, the element and weight sizes, \<^verbatim>\<open>ceildiv\<close>, the cuBLAS configuration
  guard, the two \<^verbatim>\<open>WeightsWithOwnership::convertAndCopy\<close> overloads and
  \<^verbatim>\<open>fieldTypeToDataType\<close>.

  Machine integers are words: \<^verbatim>\<open>int\<close> and \<^verbatim>\<open>uint32_t\<close> are \<open>32 word\<close>,
  \<^verbatim>\<open>int64_t\<close> and \<^verbatim>\<open>size_t\<close> are \<open>64 word\<close>; \<open>sint\<close> reads a signed one,
  \<open>uint\<close>/\<open>unat\<close> an unsigned one.
\<close>

subsection \<open>Enumerations\<close>

text \<open>
  Modelled from the spec: the scoped enumerations \<^verbatim>\<open>nvinfer1::DataType\<close> (the numeric
  type tag of section 3) and \<^verbatim>\<open>nvinfer1::PluginFieldType\<close> (the field type of section
  7) are declared in the TensorRT headers, which are not among the sources. The
  constructors below are the enumerators that \<^verbatim>\<open>bertCommon.h\<close> names. Both are
  enumerations over \<^verbatim>\<open>int32_t\<close> and can hold any value of that type, so one more
  constructor stands for a value that is none of the named enumerators (tagged with that
  value). The enumerators \<^verbatim>\<open>kINT32\<close> and \<^verbatim>\<open>kINT8\<close> exist in both enumerations and
  are written qualified, as in the source.
\<close>

datatype DataType = kINT32 | kFLOAT | kHALF | kBOOL | kUINT8 | kINT8 | kFP8
  | DataType_other "32 word"

datatype PluginFieldType = kFLOAT32 | kFLOAT16 | kINT32 | kINT8
  | PluginFieldType_other "32 word"

subsection \<open>Failures\<close>

text \<open>
  Modelled from the spec: the macros \<^verbatim>\<open>PLUGIN_ASSERT\<close> and \<^verbatim>\<open>PLUGIN_CUBLASASSERT\<close> come
  from \<^verbatim>\<open>common/checkMacrosPlugin.h\<close>, which is not among the sources; by sections 5
  and 7 of the specification a failed check aborts the process at once. That is
  \<open>Abort\<close>, with the text of the failed check.

  A C++ exception that reaches the caller is \<open>Throw\<close>. \<open>Terminate\<close> is an exception
  that leaves a \<^verbatim>\<open>noexcept\<close> function (\<^verbatim>\<open>std::terminate\<close>), which ends the process as
  well. \<open>UB\<close> marks undefined behaviour of the C++ program: a read outside the
  source array, or signed overflow.
\<close>

datatype exception = RuntimeError string | InvalidArgument string | BadArrayNewLength

datatype ub = SignedOverflow | InvalidRead

datatype failure = Throw exception | Abort string | Terminate exception | UB ub

subsection \<open>Constants of the fused attention path\<close>

definition kSM_75 :: "32 word" where "kSM_75 = 75"
definition kSM_80 :: "32 word" where "kSM_80 = 80"
definition kSM_86 :: "32 word" where "kSM_86 = 86"
definition kSM_87 :: "32 word" where "kSM_87 = 87"
definition kSM_90 :: "32 word" where "kSM_90 = 90"

definition threadsPerCta128 :: "64 word" where "threadsPerCta128 = 2 * 2 * 32"
definition threadsPerCta384 :: "64 word" where "threadsPerCta384 = 1 * 8 * 32"

definition xmmasM128 :: "64 word" where "xmmasM128 = 4"
definition xmmasM384 :: "64 word" where "xmmasM384 = 24"

definition unfusedMaskSize :: "64 word" where "unfusedMaskSize = 1"
definition packedMaskSize64 :: "64 word" where
  "packedMaskSize64 = xmmasM128 * threadsPerCta128"
definition packedMaskSize96 :: "64 word" where
  "packedMaskSize96 = xmmasM128 * threadsPerCta128"
definition packedMaskSize128 :: "64 word" where
  "packedMaskSize128 = xmmasM128 * threadsPerCta128"
definition packedMaskSize384 :: "64 word" where
  "packedMaskSize384 = xmmasM384 * threadsPerCta384"

subsection \<open>getMHAMaskPackedSize\<close>

text \<open>
  The \<^verbatim>\<open>size_t\<close> constants are narrowed to \<^verbatim>\<open>int\<close> on assignment to
  \<^verbatim>\<open>packedSize\<close> (\<open>ucast\<close>).
\<close>

definition getMHAMaskPackedSize :: "32 word \<Rightarrow> DataType \<Rightarrow> 32 word \<Rightarrow> 32 word" where
  "getMHAMaskPackedSize smVersion dataType sequenceLength =
     (let packedSize = (ucast unfusedMaskSize :: 32 word);
          isSmOK = (smVersion = kSM_75 \<or> smVersion = kSM_80 \<or> smVersion = kSM_86
                    \<or> smVersion = kSM_87 \<or> smVersion = kSM_90);
          isPrecisionOK = (dataType = DataType.kINT8 \<or> dataType = kHALF)
      in if isSmOK \<and> isPrecisionOK then
           (if sequenceLength = 64 then ucast packedMaskSize64
            else if sequenceLength = 96 then ucast packedMaskSize96
            else if sequenceLength = 128 then ucast packedMaskSize128
            else if sequenceLength = 384 then ucast packedMaskSize384
            else packedSize)
         else packedSize)"

subsection \<open>Element and weight sizes\<close>

text \<open>
  The \<^verbatim>\<open>switch\<close> of \<^verbatim>\<open>getElementSize\<close> has no \<^verbatim>\<open>default\<close>: a value that is none of
  the enumerators falls through to the final \<^verbatim>\<open>return 0\<close>.
\<close>

fun getElementSize :: "DataType \<Rightarrow> 32 word" where
  "getElementSize DataType.kINT32 = 4"
| "getElementSize kFLOAT = 4"
| "getElementSize kHALF = 2"
| "getElementSize kBOOL = 1"
| "getElementSize kUINT8 = 1"
| "getElementSize DataType.kINT8 = 1"
| "getElementSize kFP8 = 1"
| "getElementSize (DataType_other v) = 0"

text \<open>
  An array in host memory, by the element type it was created with: \<^verbatim>\<open>float\<close> and
  \<^verbatim>\<open>half\<close> elements are kept as their 32-bit and 16-bit patterns, \<^verbatim>\<open>char\<close> elements
  as bytes. \<^verbatim>\<open>Weights::values\<close> is a pointer: \<open>None\<close> is \<^verbatim>\<open>nullptr\<close>, \<open>Some b\<close>
  points at the first element of the array \<open>b\<close>.
\<close>

datatype buffer = FloatArray "32 word list" | HalfArray "16 word list"
  | CharArray "8 word list"

record Weights =
  type :: DataType
  "values" :: "buffer option"
  count :: "64 word"

text \<open>
  \<^verbatim>\<open>w.count * getElementSize(type)\<close> multiplies an \<^verbatim>\<open>int64_t\<close> by a \<^verbatim>\<open>uint32_t\<close>
  converted to \<^verbatim>\<open>int64_t\<close>; a product \<open>p\<close> outside the range of \<^verbatim>\<open>int64_t\<close> is
  signed overflow.
\<close>

definition getWeightsSize :: "Weights \<Rightarrow> DataType \<Rightarrow> failure + 64 word" where
  "getWeightsSize w t =
     (let p = sint (count w) * uint (getElementSize t)
      in if - (2 ^ 63) \<le> p \<and> p < 2 ^ 63 then Inr (count w * ucast (getElementSize t))
         else Inl (UB SignedOverflow))"

subsection \<open>ceildiv and alignTo\<close>

text \<open>
  The template is modelled at an unsigned instantiation of any width: \<open>+\<close>, \<open>-\<close> and
  \<open>*\<close> wrap modulo \<open>2 ^ LENGTH('a)\<close> and \<open>div\<close> is the unsigned quotient. Division by
  zero is undefined in C++ and is \<open>None\<close> here. (At a signed instantiation the results
  on positive arguments are the same as long as \<open>a + b - 1\<close> fits the type, and the
  sum overflows where the unsigned one wraps.)
\<close>

definition ceildiv :: "'a::len word \<Rightarrow> 'a word \<Rightarrow> 'a word option" where
  "ceildiv a b = (if b = 0 then None else Some ((a + b - 1) div b))"

definition alignTo :: "'a::len word \<Rightarrow> 'a word \<Rightarrow> 'a word option" where
  "alignTo a b = map_option (\<lambda>q. q * b) (ceildiv a b)"

subsection \<open>fieldTypeToDataType\<close>

fun fieldTypeToDataType :: "PluginFieldType \<Rightarrow> exception + DataType" where
  "fieldTypeToDataType kFLOAT32 = Inr kFLOAT"
| "fieldTypeToDataType kFLOAT16 = Inr kHALF"
| "fieldTypeToDataType PluginFieldType.kINT32 = Inr DataType.kINT32"
| "fieldTypeToDataType PluginFieldType.kINT8 = Inr DataType.kINT8"
| "fieldTypeToDataType (PluginFieldType_other v) =
     Inl (InvalidArgument ''No corresponding datatype for plugin field type'')"

subsection \<open>CublasConfigHelper\<close>

text \<open>
  Modelled from the spec: the cuBLAS library (\<^verbatim>\<open>cublas_v2.h\<close>) is not among the sources.
  By section 4.5 the guard reads and overrides the pointer mode and the math mode of a
  math-library handle, so a handle is modelled by these two settings, with a getter and
  a setter for each. \<open>None\<close> is a handle that is not initialised: every call on it
  reports \<^verbatim>\<open>CUBLAS_STATUS_NOT_INITIALIZED\<close> and changes nothing. The modes are the
  enumerators the source names and, as for the enumerations above, any other value.
\<close>

datatype cublasPointerMode_t = CUBLAS_POINTER_MODE_HOST | cublasPointerMode_other "32 word"

datatype cublasMath_t = CUBLAS_TENSOR_OP_MATH | cublasMath_other "32 word"

datatype cublasStatus_t = CUBLAS_STATUS_SUCCESS | CUBLAS_STATUS_NOT_INITIALIZED

record cublasContext =
  pointerMode :: cublasPointerMode_t
  mathMode :: cublasMath_t

type_synonym cublasHandle_t = "cublasContext option"

definition cublasGetPointerMode :: "cublasHandle_t \<Rightarrow> cublasStatus_t + cublasPointerMode_t" where
  "cublasGetPointerMode h =
     (case h of None \<Rightarrow> Inl CUBLAS_STATUS_NOT_INITIALIZED | Some c \<Rightarrow> Inr (pointerMode c))"

definition cublasGetMathMode :: "cublasHandle_t \<Rightarrow> cublasStatus_t + cublasMath_t" where
  "cublasGetMathMode h =
     (case h of None \<Rightarrow> Inl CUBLAS_STATUS_NOT_INITIALIZED | Some c \<Rightarrow> Inr (mathMode c))"

definition cublasSetPointerMode ::
  "cublasHandle_t \<Rightarrow> cublasPointerMode_t \<Rightarrow> cublasStatus_t \<times> cublasHandle_t" where
  "cublasSetPointerMode h m =
     (case h of None \<Rightarrow> (CUBLAS_STATUS_NOT_INITIALIZED, None)
      | Some c \<Rightarrow> (CUBLAS_STATUS_SUCCESS, Some (c\<lparr>pointerMode := m\<rparr>)))"

definition cublasSetMathMode ::
  "cublasHandle_t \<Rightarrow> cublasMath_t \<Rightarrow> cublasStatus_t \<times> cublasHandle_t" where
  "cublasSetMathMode h m =
     (case h of None \<Rightarrow> (CUBLAS_STATUS_NOT_INITIALIZED, None)
      | Some c \<Rightarrow> (CUBLAS_STATUS_SUCCESS, Some (c\<lparr>mathMode := m\<rparr>)))"

text \<open>
  The guard object: the two saved modes (its third member is the handle itself, which
  the model passes along as the state). The constructor checks each call with
  \<^verbatim>\<open>PLUGIN_CUBLASASSERT\<close>; the destructor ignores the status of its two calls.
\<close>

record CublasConfigHelper =
  pm :: cublasPointerMode_t
  mm :: cublasMath_t

definition CublasConfigHelper_ctor ::
  "cublasHandle_t \<Rightarrow> failure + (CublasConfigHelper \<times> cublasHandle_t)" where
  "CublasConfigHelper_ctor cublas =
     (case cublasGetPointerMode cublas of
        Inl s \<Rightarrow> Inl (Abort ''cublasGetPointerMode(cublas, &pm)'')
      | Inr p \<Rightarrow>
     (case cublasGetMathMode cublas of
        Inl s \<Rightarrow> Inl (Abort ''cublasGetMathMode(cublas, &mm)'')
      | Inr m \<Rightarrow>
     (case cublasSetPointerMode cublas CUBLAS_POINTER_MODE_HOST of (s1, h1) \<Rightarrow>
        if s1 \<noteq> CUBLAS_STATUS_SUCCESS
        then Inl (Abort ''cublasSetPointerMode(cublas, CUBLAS_POINTER_MODE_HOST)'')
        else
     (case cublasSetMathMode h1 CUBLAS_TENSOR_OP_MATH of (s2, h2) \<Rightarrow>
        if s2 \<noteq> CUBLAS_STATUS_SUCCESS
        then Inl (Abort ''cublasSetMathMode(cublas, CUBLAS_TENSOR_OP_MATH)'')
        else Inr (\<lparr>pm = p, mm = m\<rparr>, h2)))))"

definition CublasConfigHelper_dtor :: "CublasConfigHelper \<Rightarrow> cublasHandle_t \<Rightarrow> cublasHandle_t" where
  "CublasConfigHelper_dtor g cublas =
     (case cublasSetMathMode cublas (mm g) of (s1, h1) \<Rightarrow>
      case cublasSetPointerMode h1 (pm g) of (s2, h2) \<Rightarrow> h2)"

text \<open>
  A scope that declares the guard and then runs a body. The body is any code using the
  handle; it leaves the scope by returning or by an exception, and in both cases C++
  runs the destructor of the guard on the way out. (A body that ends the process never
  leaves the scope.)
\<close>

datatype scope_exit = Returns | Throws exception

definition guarded_scope ::
  "(cublasHandle_t \<Rightarrow> scope_exit \<times> cublasHandle_t) \<Rightarrow> cublasHandle_t
     \<Rightarrow> failure + (scope_exit \<times> cublasHandle_t)" where
  "guarded_scope body cublas =
     (case CublasConfigHelper_ctor cublas of
        Inl f \<Rightarrow> Inl f
      | Inr (g, h1) \<Rightarrow>
          (case body h1 of (e, h2) \<Rightarrow> Inr (e, CublasConfigHelper_dtor g h2)))"

subsection \<open>WeightsWithOwnership\<close>

text \<open>
  \<^verbatim>\<open>WeightsWithOwnership\<close> derives from \<^verbatim>\<open>Weights\<close> and adds no member. Its
  constructor sets \<^verbatim>\<open>values\<close> to \<^verbatim>\<open>nullptr\<close> and \<^verbatim>\<open>count\<close> to 0 and leaves
  \<^verbatim>\<open>type\<close> as it is, so the type of a new object is a parameter here.
\<close>

type_synonym WeightsWithOwnership = Weights

definition WeightsWithOwnership_ctor :: "DataType \<Rightarrow> WeightsWithOwnership" where
  "WeightsWithOwnership_ctor t = \<lparr>type = t, values = None, count = 0\<rparr>"

text \<open>
  \<^verbatim>\<open>new T[n]\<close> for a signed \<open>n\<close> and an element size: a negative \<open>n\<close>, or a byte
  size above the largest object size (\<^verbatim>\<open>PTRDIFF_MAX\<close>), throws
  \<^verbatim>\<open>std::bad_array_new_length\<close> (for the too large size an implementation may throw
  \<^verbatim>\<open>std::bad_alloc\<close> instead; the model does not tell the two apart). Otherwise the
  heap is taken to have room, and the result is the number of elements.
\<close>

definition new_array :: "int \<Rightarrow> nat \<Rightarrow> exception + nat" where
  "new_array n sz =
     (if n < 0 \<or> 2 ^ 63 - 1 < n * int sz then Inl BadArrayNewLength else Inr (nat n))"

text \<open>
  The elements readable through a pointer cast to \<^verbatim>\<open>float const*\<close> or
  \<^verbatim>\<open>half const*\<close>: those of the array it points at when that array has this
  element type, and none otherwise: \<^verbatim>\<open>nullptr\<close> cannot be read, and
  reading an array through a pointer to another element type depends on the memory
  layout and is counted as an invalid read.
\<close>

fun floats_at :: "buffer option \<Rightarrow> 32 word list" where
  "floats_at (Some (FloatArray xs)) = xs"
| "floats_at _ = []"

fun halfs_at :: "buffer option \<Rightarrow> 16 word list" where
  "halfs_at (Some (HalfArray xs)) = xs"
| "halfs_at _ = []"

text \<open>\<^verbatim>\<open>std::copy_n(first, n, dest)\<close>: reads \<open>n\<close> elements, which must be there.\<close>

definition copy_n :: "'a list \<Rightarrow> nat \<Rightarrow> failure + 'a list" where
  "copy_n first n = (if n \<le> length first then Inr (take n first) else Inl (UB InvalidRead))"

text \<open>
  The conversion loop \<^verbatim>\<open>for (auto it = 0; it < src.count; it++) d[it] = f(s[it]);\<close>
  The counter is an \<^verbatim>\<open>int\<close> (the type of \<^verbatim>\<open>0\<close>), compared with the \<^verbatim>\<open>int64_t\<close>
  count: incrementing it at \<^verbatim>\<open>INT_MAX\<close> is signed overflow.
\<close>

function convert_loop ::
  "('a \<Rightarrow> 'b) \<Rightarrow> 'a list \<Rightarrow> 'b list \<Rightarrow> int \<Rightarrow> int \<Rightarrow> failure + 'b list" where
  "convert_loop f s d it cnt =
     (if it < cnt then
        (if it < 0 \<or> int (length s) \<le> it then Inl (UB InvalidRead)
         else if it = 2 ^ 31 - 1 then Inl (UB SignedOverflow)
         else convert_loop f s (d[nat it := f (s ! nat it)]) (it + 1) cnt)
      else Inr d)"
  by pat_completeness auto
termination
  by (relation "measure (\<lambda>(f, s, d, it, cnt). nat (cnt - it))") auto

declare convert_loop.simps [simp del]

text \<open>
  The typed overload \<^verbatim>\<open>convertAndCopy(Weights const& src, DataType type)\<close>. The
  conversions \<^verbatim>\<open>__half2float\<close> and \<^verbatim>\<open>__float2half\<close> are CUDA intrinsics and are
  parameters. \<open>src\<close> is an object other than \<open>this\<close>. On a failure the result carries
  the state of the object at that point; the error text of \<open>Abort\<close> is the asserted
  condition.
\<close>

definition convertAndCopy ::
  "(16 word \<Rightarrow> 32 word) \<Rightarrow> (32 word \<Rightarrow> 16 word) \<Rightarrow> WeightsWithOwnership \<Rightarrow> Weights
     \<Rightarrow> DataType \<Rightarrow> (failure \<times> WeightsWithOwnership) + WeightsWithOwnership" where
  "convertAndCopy half2float float2half this src ty =
     (let this1 = this\<lparr>type := ty, count := count src\<rparr> in
      if ty = kFLOAT then
        (case new_array (sint (count src)) 4 of
           Inl e \<Rightarrow> Inl (Throw e, this1)
         | Inr n \<Rightarrow>
            (let destBuf = replicate n 0;
                 this2 = this1\<lparr>values := Some (FloatArray destBuf)\<rparr> in
             if type src = kFLOAT then
               (case copy_n (floats_at (values src)) n of
                  Inl e \<Rightarrow> Inl (e, this2)
                | Inr xs \<Rightarrow> Inr (this2\<lparr>values := Some (FloatArray xs)\<rparr>))
             else if type src \<noteq> kHALF
               then Inl (Abort ''src.type == nvinfer1::DataType::kHALF'', this2)
             else
               (case convert_loop half2float (halfs_at (values src)) destBuf 0
                       (sint (count src)) of
                  Inl e \<Rightarrow> Inl (e, this2)
                | Inr d \<Rightarrow> Inr (this2\<lparr>values := Some (FloatArray d)\<rparr>))))
      else if ty = kHALF then
        (case new_array (sint (count src)) 2 of
           Inl e \<Rightarrow> Inl (Throw e, this1)
         | Inr n \<Rightarrow>
            (let destBuf = replicate n 0;
                 this2 = this1\<lparr>values := Some (HalfArray destBuf)\<rparr> in
             if type src = kHALF then
               (case copy_n (halfs_at (values src)) n of
                  Inl e \<Rightarrow> Inl (e, this2)
                | Inr xs \<Rightarrow> Inr (this2\<lparr>values := Some (HalfArray xs)\<rparr>))
             else if type src \<noteq> kFLOAT
               then Inl (Abort ''src.type == nvinfer1::DataType::kFLOAT'', this2)
             else
               (case convert_loop float2half (floats_at (values src)) destBuf 0
                       (sint (count src)) of
                  Inl e \<Rightarrow> Inl (e, this2)
                | Inr d \<Rightarrow> Inr (this2\<lparr>values := Some (HalfArray d)\<rparr>))))
      else Inl (Throw (RuntimeError ''Unsupported DataType specified for plugin.''), this1))"

text \<open>
  The raw overload \<^verbatim>\<open>convertAndCopy(char const*& srcBuf, size_t count, DataType type)\<close>.
  The cursor \<^verbatim>\<open>srcBuf\<close> is a serialized buffer and an offset into it. The
  \<^verbatim>\<open>size_t\<close> count is stored in the \<^verbatim>\<open>int64_t\<close> member with the same bits. The
  function is \<^verbatim>\<open>noexcept\<close>, so an exception of \<^verbatim>\<open>new\<close> ends the process.
\<close>

record cursor =
  bytes :: "8 word list"
  pos :: nat

definition convertAndCopy_raw ::
  "WeightsWithOwnership \<Rightarrow> cursor \<Rightarrow> 64 word \<Rightarrow> DataType
     \<Rightarrow> (failure \<times> WeightsWithOwnership) + (WeightsWithOwnership \<times> cursor)" where
  "convertAndCopy_raw this srcBuf cnt ty =
     (let this1 = this\<lparr>type := ty, count := cnt\<rparr> in
      case getWeightsSize this1 ty of
        Inl e \<Rightarrow> Inl (e, this1)
      | Inr nbBytes \<Rightarrow>
         (case new_array (sint nbBytes) 1 of
            Inl e \<Rightarrow> Inl (Terminate e, this1)
          | Inr n \<Rightarrow>
             (let this2 = this1\<lparr>values := Some (CharArray (replicate n 0))\<rparr> in
              case copy_n (drop (pos srcBuf) (bytes srcBuf)) n of
                Inl e \<Rightarrow> Inl (e, this2)
              | Inr bs \<Rightarrow>
                  Inr (this2\<lparr>values := Some (CharArray bs)\<rparr>,
                       srcBuf\<lparr>pos := pos srcBuf + n\<rparr>))))"

text \<open>The bytes of an allocation, and the invariant of section 3 of the specification.\<close>

fun byte_size :: "buffer \<Rightarrow> nat" where
  "byte_size (FloatArray xs) = 4 * length xs"
| "byte_size (HalfArray xs) = 2 * length xs"
| "byte_size (CharArray xs) = length xs"

definition allocated_bytes :: "buffer option \<Rightarrow> nat" where
  "allocated_bytes v = (case v of None \<Rightarrow> 0 | Some b \<Rightarrow> byte_size b)"

definition size_invariant :: "Weights \<Rightarrow> bool" where
  "size_invariant w \<longleftrightarrow>
     int (allocated_bytes (values w)) = sint (count w) * uint (getElementSize (type w))"

section \<open>Properties\<close>

subsection \<open>Lookups\<close>

text \<open>
  Claim C1. \<^verbatim>\<open>getMHAMaskPackedSize\<close> has a value for every SM version, data type and
  sequence length, with no failure branch. For an SM version among 75, 80, 86, 87, 90
  and a data type \<^verbatim>\<open>kINT8\<close> or \<^verbatim>\<open>kHALF\<close> it is
  \<^verbatim>\<open>xmmasM128 * threadsPerCta128\<close> = 512 at the sequence lengths 64, 96 and 128 and
  \<^verbatim>\<open>xmmasM384 * threadsPerCta384\<close> = 6144 at 384; for every other combination it is
  the unfused mask size 1.
\<close>

theorem getMHAMaskPackedSize_table:
  "getMHAMaskPackedSize sm dt len =
     (if (sm = 75 \<or> sm = 80 \<or> sm = 86 \<or> sm = 87 \<or> sm = 90)
         \<and> (dt = DataType.kINT8 \<or> dt = kHALF)
      then (if len = 64 \<or> len = 96 \<or> len = 128 then 512
            else if len = 384 then 6144 else 1)
      else 1)
   \<and> xmmasM128 * threadsPerCta128 = 512
   \<and> xmmasM384 * threadsPerCta384 = 6144
   \<and> unfusedMaskSize = 1"
  by (simp add: getMHAMaskPackedSize_def kSM_75_def kSM_80_def kSM_86_def kSM_87_def
      kSM_90_def packedMaskSize64_def packedMaskSize96_def packedMaskSize128_def
      packedMaskSize384_def xmmasM128_def xmmasM384_def threadsPerCta128_def
      threadsPerCta384_def unfusedMaskSize_def)

text \<open>
  Claim C10. \<^verbatim>\<open>getElementSize\<close> returns a value for every data type, with no failure
  branch: 4 for \<^verbatim>\<open>kINT32\<close> and \<^verbatim>\<open>kFLOAT\<close>, 2 for \<^verbatim>\<open>kHALF\<close>, 1 for \<^verbatim>\<open>kBOOL\<close>,
  \<^verbatim>\<open>kUINT8\<close>, \<^verbatim>\<open>kINT8\<close> and \<^verbatim>\<open>kFP8\<close>, and 0 for a value that is none of the
  enumerators; for such a value \<^verbatim>\<open>getWeightsSize\<close> returns 0 bytes, whatever the
  element count, and does not fail.
\<close>

theorem getElementSize_total:
  "getElementSize t =
     (if t = DataType.kINT32 \<or> t = kFLOAT then 4
      else if t = kHALF then 2
      else if t = kBOOL \<or> t = kUINT8 \<or> t = DataType.kINT8 \<or> t = kFP8 then 1
      else 0)
   \<and> getElementSize (DataType_other v) = 0
   \<and> getWeightsSize w (DataType_other v) = Inr 0"
  by (cases t) (simp_all add: getWeightsSize_def)

text \<open>
  Claim C7. \<^verbatim>\<open>fieldTypeToDataType\<close> maps \<^verbatim>\<open>kFLOAT32\<close> to \<^verbatim>\<open>kFLOAT\<close>,
  \<^verbatim>\<open>kFLOAT16\<close> to \<^verbatim>\<open>kHALF\<close>, \<^verbatim>\<open>kINT32\<close> to \<^verbatim>\<open>kINT32\<close> and \<^verbatim>\<open>kINT8\<close> to
  \<^verbatim>\<open>kINT8\<close>; for every other field type it returns no data type and throws
  \<^verbatim>\<open>std::invalid_argument\<close> with a message that names the problem.
\<close>

theorem fieldTypeToDataType_cases:
  "fieldTypeToDataType ft =
     (if ft = kFLOAT32 then Inr kFLOAT
      else if ft = kFLOAT16 then Inr kHALF
      else if ft = PluginFieldType.kINT32 then Inr DataType.kINT32
      else if ft = PluginFieldType.kINT8 then Inr DataType.kINT8
      else Inl (InvalidArgument ''No corresponding datatype for plugin field type''))"
  by (cases ft) simp_all

subsection \<open>Ceiling division\<close>

lemma ceil_multiple_bounds:
  fixes A B :: nat
  assumes "0 < B"
  shows "A \<le> ((A + B - 1) div B) * B \<and> ((A + B - 1) div B) * B < A + B"
proof -
  let ?n = "A + B - 1"
  have m: "?n mod B < B" using assms by simp
  have e: "(?n div B) * B = ?n - ?n mod B"
    by (simp add: minus_mod_eq_div_mult)
  show ?thesis using m e assms by linarith
qed

lemma wrapped_sum_small:
  fixes A B N :: nat
  assumes "A < N" "B < N" "0 < B" "N \<le> A + B - 1"
  shows "(A + (B - 1)) mod N < B"
proof -
  have "N \<le> A + (B - 1)" using assms by linarith
  then have "(A + (B - 1)) mod N = (A + (B - 1) - N) mod N" by (rule le_mod_geq)
  also have "\<dots> = A + (B - 1) - N" using assms by (intro mod_less) linarith
  finally show ?thesis using assms by linarith
qed

text \<open>Whenever \<open>a + b - 1\<close> wraps, the quotient is 0, so the multiple is below \<open>a\<close>.\<close>

lemma ceildiv_wraps:
  fixes a b :: "'a::len word"
  assumes "0 < a" and "0 < b" and "2 ^ LENGTH('a) \<le> unat a + unat b - 1"
  shows "ceildiv a b = Some 0"
proof -
  have b0: "b \<noteq> 0" "0 < unat b" using assms(2) by (auto simp: word_less_nat_alt)
  have b1: "unat (b - 1) = unat b - 1"
    using b0(1) by (simp add: unat_minus_one)
  have lt: "unat a < 2 ^ LENGTH('a)" "unat b < 2 ^ LENGTH('a)" by simp_all
  have "unat (a + (b - 1)) = (unat a + (unat b - 1)) mod 2 ^ LENGTH('a)"
    by (simp add: unat_word_ariths b1)
  also have "\<dots> < unat b"
    using lt b0(2) assms(3) by (rule wrapped_sum_small)
  finally have "unat ((a + b - 1) div b) = 0"
    by (simp add: unat_div add_diff_eq)
  then have "(a + b - 1) div b = 0"
    by (simp add: unat_eq_0)
  then show ?thesis using b0(1) by (simp add: ceildiv_def)
qed

text \<open>
  Claim C2, as stated, at the \<^verbatim>\<open>uint32_t\<close> instantiation: \<open>a = 4294967295\<close> and
  \<open>b = 2\<close> are positive, \<open>a + b - 1\<close> wraps to 0, so \<^verbatim>\<open>ceildiv(a, b)\<close> is 0 and
  \<^verbatim>\<open>ceildiv(a, b) * b\<close> (which is \<^verbatim>\<open>alignTo(a, b)\<close>) is 0, below \<open>a\<close>.
\<close>

theorem ceildiv_wraps_counterexample:
  "(0::32 word) < 4294967295 \<and> (0::32 word) < 2
   \<and> ceildiv (4294967295::32 word) 2 = Some 0
   \<and> alignTo (4294967295::32 word) 2 = Some 0
   \<and> \<not> ((4294967295::32 word) \<le> 0 * 2)"
  by (simp add: ceildiv_def alignTo_def)

text \<open>
  Claim C2, amended. For all positive \<open>a\<close> and \<open>b\<close> of a fixed-width unsigned type
  such that \<open>a + b - 1\<close> does not exceed the largest value of the type,
  \<^verbatim>\<open>ceildiv(a, b)\<close> is the quotient \<open>q\<close> with \<open>q * b \<ge> a\<close> and \<open>q * b < a + b\<close>,
  the products and the sum read as natural numbers (\<open>q * b\<close> does not wrap).
\<close>

theorem ceildiv_no_wrap:
  fixes a b :: "'a::len word"
  assumes "0 < a" and "0 < b" and "unat a + unat b - 1 < 2 ^ LENGTH('a)"
  shows "\<exists>q. ceildiv a b = Some q \<and> a \<le> q * b
             \<and> unat (q * b) = unat q * unat b
             \<and> unat a \<le> unat (q * b) \<and> unat (q * b) < unat a + unat b"
proof -
  have b0: "b \<noteq> 0" "0 < unat b" using assms(2) by (auto simp: word_less_nat_alt)
  have b1: "unat (b - 1) = unat b - 1"
    using b0(1) by (simp add: unat_minus_one)
  have "unat (a + (b - 1)) = unat a + unat (b - 1)"
    using assms(3) b0(2) by (subst unat_add_lem[THEN iffD1]) (simp_all add: b1)
  then have s: "unat (a + b - 1) = unat a + unat b - 1"
    using b0(2) by (simp add: b1 add_diff_eq)
  let ?q = "(a + b - 1) div b"
  have q: "unat ?q = (unat a + unat b - 1) div unat b"
    by (simp add: unat_div s)
  have le: "unat ?q * unat b \<le> unat a + unat b - 1"
    unfolding q by simp
  have m: "unat (?q * b) = unat ?q * unat b"
    using le assms(3) by (subst unat_mult_lem[THEN iffD1]) simp_all
  have n: "unat a \<le> unat (?q * b) \<and> unat (?q * b) < unat a + unat b"
    using ceil_multiple_bounds[OF b0(2), of "unat a"] by (simp add: m q)
  then have "a \<le> ?q * b" by (simp add: word_le_nat_alt)
  then show ?thesis using b0(1) m n by (simp add: ceildiv_def)
qed

theorem ceildiv_no_wrap_witness:
  "(0::8 word) < 250 \<and> (0::8 word) < 6 \<and> unat (250::8 word) + unat (6::8 word) - 1 < 2 ^ LENGTH(8)
   \<and> ceildiv (250::8 word) 6 = Some 42 \<and> (250::8 word) \<le> 42 * 6
   \<and> unat (42 * 6 :: 8 word) < unat (250::8 word) + unat (6::8 word)"
proof -
  have h: "(0::8 word) < 250" "(0::8 word) < 6"
    "unat (250::8 word) + unat (6::8 word) - 1 < 2 ^ LENGTH(8)"
    by simp_all
  have c: "ceildiv (250::8 word) 6 = Some 42" by (simp add: ceildiv_def)
  from ceildiv_no_wrap[OF h] c h show ?thesis by simp
qed

subsection \<open>The cuBLAS configuration guard\<close>

text \<open>
  Claim C8. On a valid handle the constructor of \<^verbatim>\<open>CublasConfigHelper\<close> records the
  current pointer mode and math mode and then sets \<^verbatim>\<open>CUBLAS_POINTER_MODE_HOST\<close> and
  \<^verbatim>\<open>CUBLAS_TENSOR_OP_MATH\<close>; the destructor puts back exactly the recorded modes. So
  for every body that leaves the handle alive, whatever it does to the modes and
  whether it returns or throws, the configuration of the handle after the guarded
  scope is the one before it.
\<close>

theorem CublasConfigHelper_restores:
  fixes c :: cublasContext
  assumes "body (Some (c\<lparr>pointerMode := CUBLAS_POINTER_MODE_HOST,
                          mathMode := CUBLAS_TENSOR_OP_MATH\<rparr>)) = (e, Some c')"
  shows "CublasConfigHelper_ctor (Some c)
           = Inr (\<lparr>pm = pointerMode c, mm = mathMode c\<rparr>,
                  Some (c\<lparr>pointerMode := CUBLAS_POINTER_MODE_HOST,
                          mathMode := CUBLAS_TENSOR_OP_MATH\<rparr>))
         \<and> CublasConfigHelper_dtor \<lparr>pm = pointerMode c, mm = mathMode c\<rparr> (Some c')
             = Some (c'\<lparr>mathMode := mathMode c, pointerMode := pointerMode c\<rparr>)
         \<and> guarded_scope body (Some c) = Inr (e, Some c)"
  using assms
  by (simp add: guarded_scope_def CublasConfigHelper_ctor_def CublasConfigHelper_dtor_def
      cublasGetPointerMode_def cublasGetMathMode_def cublasSetPointerMode_def
      cublasSetMathMode_def)

theorem CublasConfigHelper_restores_witness:
  "(\<lambda>h. (Throws (RuntimeError ''failed''),
          map_option (\<lambda>c. c\<lparr>mathMode := cublasMath_other 0\<rparr>) h))
     (Some (\<lparr>pointerMode = cublasPointerMode_other 1, mathMode = cublasMath_other 0\<rparr>
              \<lparr>pointerMode := CUBLAS_POINTER_MODE_HOST, mathMode := CUBLAS_TENSOR_OP_MATH\<rparr>))
     = (Throws (RuntimeError ''failed''),
        Some \<lparr>pointerMode = CUBLAS_POINTER_MODE_HOST, mathMode = cublasMath_other 0\<rparr>)
   \<and> guarded_scope
        (\<lambda>h. (Throws (RuntimeError ''failed''),
               map_option (\<lambda>c. c\<lparr>mathMode := cublasMath_other 0\<rparr>) h))
        (Some \<lparr>pointerMode = cublasPointerMode_other 1, mathMode = cublasMath_other 0\<rparr>)
      = Inr (Throws (RuntimeError ''failed''),
             Some \<lparr>pointerMode = cublasPointerMode_other 1, mathMode = cublasMath_other 0\<rparr>)"
  using CublasConfigHelper_restores
    [of "\<lambda>h. (Throws (RuntimeError ''failed''),
               map_option (\<lambda>c. c\<lparr>mathMode := cublasMath_other 0\<rparr>) h)"
        "\<lparr>pointerMode = cublasPointerMode_other 1, mathMode = cublasMath_other 0\<rparr>"
        "Throws (RuntimeError ''failed'')"
        "\<lparr>pointerMode = CUBLAS_POINTER_MODE_HOST, mathMode = cublasMath_other 0\<rparr>"]
  by simp

subsection \<open>Sizes after a conversion\<close>

lemma convert_loop_length:
  "convert_loop f s d it cnt = Inr d' \<Longrightarrow> length d' = length d"
proof (induction f s d it cnt rule: convert_loop.induct)
  case (1 f s d it cnt)
  show ?case
  proof (cases "it < cnt")
    case True
    with "1.prems" have ok: "\<not> (it < 0 \<or> int (length s) \<le> it)" "it \<noteq> 2 ^ 31 - 1"
      and rec: "convert_loop f s (d[nat it := f (s ! nat it)]) (it + 1) cnt = Inr d'"
      by (subst (asm) convert_loop.simps, simp split: if_splits)+
    from "1.IH"[OF True ok rec] show ?thesis by simp
  next
    case False
    with "1.prems" show ?thesis by (subst (asm) convert_loop.simps) simp
  qed
qed

lemma convert_loop_result:
  "0 \<le> it \<Longrightarrow> it \<le> cnt \<Longrightarrow> cnt \<le> 2 ^ 31 - 1 \<Longrightarrow> nat cnt \<le> length s
     \<Longrightarrow> length d = nat cnt
     \<Longrightarrow> convert_loop f s d it cnt
          = Inr (take (nat it) d @ map f (drop (nat it) (take (nat cnt) s)))"
proof (induction f s d it cnt rule: convert_loop.induct)
  case (1 f s d it cnt)
  show ?case
  proof (cases "it < cnt")
    case False
    with "1.prems" have "it = cnt" by simp
    with "1.prems" show ?thesis by (subst convert_loop.simps) simp
  next
    case True
    let ?i = "nat it"
    let ?d = "d[?i := f (s ! ?i)]"
    have i: "?i < nat cnt" "?i < length s" "?i < length d" "nat (it + 1) = Suc ?i"
      using True "1.prems" by auto
    have ok: "\<not> (it < 0 \<or> int (length s) \<le> it)" "it \<noteq> 2 ^ 31 - 1"
      using True "1.prems" by auto
    have step: "convert_loop f s d it cnt = convert_loop f s ?d (it + 1) cnt"
      using True ok by (subst convert_loop.simps) simp
    have "convert_loop f s ?d (it + 1) cnt
            = Inr (take (nat (it + 1)) ?d @ map f (drop (nat (it + 1)) (take (nat cnt) s)))"
      using "1.IH"[OF True ok] True "1.prems" by simp
    moreover have "take (nat (it + 1)) ?d = take ?i d @ [f (s ! ?i)]"
      using i by (simp add: take_Suc_conv_app_nth)
    moreover have "f (s ! ?i) # map f (drop (Suc ?i) (take (nat cnt) s))
                 = map f (drop ?i (take (nat cnt) s))"
      using i by (simp add: Cons_nth_drop_Suc[symmetric])
    ultimately show ?thesis using step i by simp
  qed
qed

lemma convert_loop_failure:
  "convert_loop f s d it cnt = Inl e \<Longrightarrow> \<exists>u. e = UB u"
proof (induction f s d it cnt rule: convert_loop.induct)
  case (1 f s d it cnt)
  from "1.prems" have c: "it < cnt"
    by (subst (asm) convert_loop.simps) (simp split: if_splits)
  show ?case
  proof (cases "(it < 0 \<or> int (length s) \<le> it) \<or> it = 2 ^ 31 - 1")
    case True
    with "1.prems" c show ?thesis
      by (subst (asm) convert_loop.simps) (auto split: if_splits)
  next
    case False
    then have ok: "\<not> (it < 0 \<or> int (length s) \<le> it)" "it \<noteq> 2 ^ 31 - 1" by auto
    with "1.prems" c
    have "convert_loop f s (d[nat it := f (s ! nat it)]) (it + 1) cnt = Inl e"
      by (subst (asm) convert_loop.simps) simp
    from "1.IH"[OF c ok this] show ?thesis .
  qed
qed

lemma new_array_Inr:
  "new_array n sz = Inr k \<longleftrightarrow> 0 \<le> n \<and> n * int sz \<le> 2 ^ 63 - 1 \<and> k = nat n"
  by (auto simp: new_array_def)

lemma copy_n_Inr: "copy_n xs n = Inr ys \<longleftrightarrow> n \<le> length xs \<and> ys = take n xs"
  by (auto simp: copy_n_def)

lemma sint_int64:
  "- (2 ^ 63) \<le> p \<Longrightarrow> p < 2 ^ 63 \<Longrightarrow> sint (word_of_int p :: 64 word) = p"
  by (simp add: sint_sbintrunc' signed_take_bit_int_eq_self)

lemma sint_times_size:
  fixes c :: "64 word" and e :: "32 word"
  assumes "- (2 ^ 63) \<le> sint c * uint e" "sint c * uint e < 2 ^ 63"
  shows "sint (c * ucast e) = sint c * uint e"
proof -
  have "c * ucast e = word_of_int (sint c * uint e)" by simp
  then show ?thesis using sint_int64[OF assms] by simp
qed

lemma sint_unat64:
  assumes "unat (c :: 64 word) < 2 ^ 63"
  shows "sint c = int (unat c)"
proof -
  have "int (unat c) < int (2 ^ 63)" using assms by (simp only: of_nat_less_iff)
  then have "uint c < 2 ^ 63" by (simp only: uint_nat of_nat_power of_nat_numeral)
  moreover have "- (2 ^ 63) \<le> uint c" by (rule order_trans[of _ 0]) simp_all
  ultimately have "signed_take_bit 63 (uint c) = uint c"
    by (intro signed_take_bit_int_eq_self)
  then show ?thesis by (simp add: sint_uint)
qed

lemma getElementSize_pos: "getElementSize ty = 0 \<or> 1 \<le> unat (getElementSize ty)"
  by (cases ty) simp_all

lemma raw_size:
  fixes cnt :: "64 word"
  assumes "unat cnt * unat (getElementSize ty) < 2 ^ 63"
  shows "sint cnt * uint (getElementSize ty) = int (unat cnt * unat (getElementSize ty))"
proof (cases "getElementSize ty = 0")
  case True
  then show ?thesis by simp
next
  case False
  then have "1 \<le> unat (getElementSize ty)" using getElementSize_pos[of ty] by simp
  then have "unat cnt \<le> unat cnt * unat (getElementSize ty)" by simp
  then have "unat cnt < 2 ^ 63" using assms by linarith
  then show ?thesis by (simp add: sint_unat64)
qed

text \<open>What a successful call of the typed overload leaves behind.\<close>

lemma convertAndCopy_Inr:
  assumes "convertAndCopy h2f f2h this src ty = Inr w"
  shows "(ty = kFLOAT \<or> ty = kHALF) \<and> type w = ty \<and> count w = count src
         \<and> 0 \<le> sint (count src)
         \<and> sint (count src) * uint (getElementSize ty) \<le> 2 ^ 63 - 1
         \<and> (\<exists>b. values w = Some b
                 \<and> int (byte_size b) = sint (count src) * uint (getElementSize ty))"
proof -
  consider (f) "ty = kFLOAT" | (h) "ty = kHALF" | (o) "ty \<noteq> kFLOAT" "ty \<noteq> kHALF" by blast
  then show ?thesis
  proof cases
    case f
    from assms obtain n where n: "new_array (sint (count src)) 4 = Inr n"
      by (auto simp: convertAndCopy_def f Let_def split: sum.splits)
    then have r: "0 \<le> sint (count src)" "sint (count src) * 4 \<le> 2 ^ 63 - 1"
        "n = nat (sint (count src))"
      by (simp_all add: new_array_Inr)
    from assms n obtain xs where
      w: "w = this\<lparr>type := ty, count := count src, values := Some (FloatArray xs)\<rparr>"
      and l: "length xs = n"
      by (auto simp: convertAndCopy_def f Let_def copy_n_Inr split: sum.splits if_splits
          dest: convert_loop_length)
    show ?thesis using r w l f by simp
  next
    case h
    from assms obtain n where n: "new_array (sint (count src)) 2 = Inr n"
      by (auto simp: convertAndCopy_def h Let_def split: sum.splits)
    then have r: "0 \<le> sint (count src)" "sint (count src) * 2 \<le> 2 ^ 63 - 1"
        "n = nat (sint (count src))"
      by (simp_all add: new_array_Inr)
    from assms n obtain xs where
      w: "w = this\<lparr>type := ty, count := count src, values := Some (HalfArray xs)\<rparr>"
      and l: "length xs = n"
      by (auto simp: convertAndCopy_def h Let_def copy_n_Inr split: sum.splits if_splits
          dest: convert_loop_length)
    show ?thesis using r w l h by simp
  next
    case o
    with assms show ?thesis by (simp add: convertAndCopy_def Let_def)
  qed
qed

text \<open>When the raw overload succeeds, and with what.\<close>

lemma convertAndCopy_raw_Inr:
  "convertAndCopy_raw this cur cnt ty = Inr (w, cur') \<longleftrightarrow>
     0 \<le> sint cnt * uint (getElementSize ty)
     \<and> sint cnt * uint (getElementSize ty) < 2 ^ 63
     \<and> nat (sint cnt * uint (getElementSize ty)) \<le> length (bytes cur) - pos cur
     \<and> w = this\<lparr>type := ty, count := cnt,
                 values := Some (CharArray (take (nat (sint cnt * uint (getElementSize ty)))
                                              (drop (pos cur) (bytes cur))))\<rparr>
     \<and> cur' = cur\<lparr>pos := pos cur + nat (sint cnt * uint (getElementSize ty))\<rparr>"
proof -
  let ?p = "sint cnt * uint (getElementSize ty)"
  show ?thesis
  proof (cases "- (2 ^ 63) \<le> ?p \<and> ?p < 2 ^ 63")
    case False
    then show ?thesis
      by (auto simp: convertAndCopy_raw_def getWeightsSize_def Let_def)
  next
    case True
    then have g: "getWeightsSize (this\<lparr>type := ty, count := cnt\<rparr>) ty
                    = Inr (cnt * ucast (getElementSize ty))"
      and s: "sint (cnt * ucast (getElementSize ty)) = ?p"
      by (simp_all add: getWeightsSize_def sint_times_size)
    show ?thesis
      using True
      by (auto simp: convertAndCopy_raw_def g s Let_def new_array_def copy_n_def)
  qed
qed

lemma sized_after:
  assumes "type w = ty" "0 \<le> sint (count w) * uint (getElementSize ty)"
    "sint (count w) * uint (getElementSize ty) < 2 ^ 63"
    "values w = Some b" "int (byte_size b) = sint (count w) * uint (getElementSize ty)"
  shows "\<exists>sz b. getWeightsSize w (type w) = Inr sz
               \<and> sint sz = sint (count w) * uint (getElementSize ty)
               \<and> values w = Some b \<and> int (byte_size b) = sint sz"
proof -
  let ?sz = "count w * ucast (getElementSize ty)"
  have s: "sint ?sz = sint (count w) * uint (getElementSize ty)"
    using assms(2,3) by (intro sint_times_size) simp_all
  have "getWeightsSize w (type w) = Inr ?sz"
    using assms(1,2,3) by (simp add: getWeightsSize_def)
  then show ?thesis using s assms(4,5) by simp
qed

lemma sized_after_typed:
  assumes "convertAndCopy h2f f2h this src ty = Inr w"
  shows "type w = ty \<and> 0 \<le> sint (count w) * uint (getElementSize ty)
         \<and> sint (count w) * uint (getElementSize ty) < 2 ^ 63
         \<and> (\<exists>b. values w = Some b
                 \<and> int (byte_size b) = sint (count w) * uint (getElementSize ty))"
  using convertAndCopy_Inr[OF assms] by auto

lemma sized_after_raw:
  assumes "convertAndCopy_raw this cur cnt ty = Inr (w, cur')"
  shows "type w = ty \<and> 0 \<le> sint (count w) * uint (getElementSize ty)
         \<and> sint (count w) * uint (getElementSize ty) < 2 ^ 63
         \<and> (\<exists>b. values w = Some b
                 \<and> int (byte_size b) = sint (count w) * uint (getElementSize ty))"
  using assms unfolding convertAndCopy_raw_Inr by auto

text \<open>
  Claim C3. After a call of \<^verbatim>\<open>convertAndCopy\<close> that returned normally, in the typed
  or in the raw overload, \<^verbatim>\<open>getWeightsSize\<close> of the object at its stored type succeeds
  and is the element count times the element size of the destination type, and this is
  the byte size of the array that \<^verbatim>\<open>values\<close> points at.
\<close>

theorem convertAndCopy_byte_size:
  assumes "convertAndCopy h2f f2h this src ty = Inr w
           \<or> (\<exists>cur'. convertAndCopy_raw this cur cnt ty = Inr (w, cur'))"
  shows "type w = ty
         \<and> (\<exists>sz b. getWeightsSize w (type w) = Inr sz
               \<and> sint sz = sint (count w) * uint (getElementSize ty)
               \<and> values w = Some b \<and> int (byte_size b) = sint sz)"
proof -
  from assms have "type w = ty \<and> 0 \<le> sint (count w) * uint (getElementSize ty)
         \<and> sint (count w) * uint (getElementSize ty) < 2 ^ 63
         \<and> (\<exists>b. values w = Some b
                 \<and> int (byte_size b) = sint (count w) * uint (getElementSize ty))"
    using sized_after_typed sized_after_raw by blast
  then show ?thesis using sized_after by blast
qed

theorem convertAndCopy_byte_size_witness:
  "convertAndCopy ucast ucast (WeightsWithOwnership_ctor kFLOAT)
      \<lparr>type = kFLOAT, values = Some (FloatArray [1, 2, 3]), count = 3\<rparr> kHALF
     = Inr \<lparr>type = kHALF, values = Some (HalfArray [1, 2, 3]), count = 3\<rparr>
   \<and> getWeightsSize \<lparr>type = kHALF, values = Some (HalfArray [1, 2, 3]), count = 3\<rparr> kHALF
       = Inr 6
   \<and> byte_size (HalfArray [1, 2, 3]) = 6"
proof -
  let ?w = "\<lparr>type = kHALF, values = Some (HalfArray [1, 2, 3]), count = 3\<rparr>"
  have h: "convertAndCopy ucast ucast (WeightsWithOwnership_ctor kFLOAT)
      \<lparr>type = kFLOAT, values = Some (FloatArray [1, 2, 3]), count = 3\<rparr> kHALF = Inr ?w"
    by code_simp
  from convertAndCopy_byte_size[OF disjI1[OF h]]
  obtain sz b where "getWeightsSize ?w (type ?w) = Inr sz"
    "sint sz = sint (count ?w) * uint (getElementSize kHALF)"
    "values ?w = Some b" "int (byte_size b) = sint sz"
    by blast
  then have "getWeightsSize ?w kHALF = Inr sz" "sint sz = 6" "byte_size (HalfArray [1, 2, 3]) = 6"
    by simp_all
  moreover from this have "sz = 6"
    by (simp add: getWeightsSize_def)
  ultimately show ?thesis using h by simp
qed

subsection \<open>The raw overload\<close>

lemma convertAndCopy_raw_result:
  assumes "unat cnt * unat (getElementSize ty) < 2 ^ 63"
    and "unat cnt * unat (getElementSize ty) \<le> length (bytes srcBuf) - pos srcBuf"
  shows "convertAndCopy_raw this srcBuf cnt ty =
           Inr (this\<lparr>type := ty, count := cnt,
                     values := Some (CharArray (take (unat cnt * unat (getElementSize ty))
                                                 (drop (pos srcBuf) (bytes srcBuf))))\<rparr>,
                srcBuf\<lparr>pos := pos srcBuf + unat cnt * unat (getElementSize ty)\<rparr>)"
proof -
  let ?n = "unat cnt * unat (getElementSize ty)"
  have p: "sint cnt * uint (getElementSize ty) = int ?n"
    using assms(1) by (rule raw_size)
  have np: "nat (sint cnt * uint (getElementSize ty)) = ?n"
    unfolding p by (rule nat_int)
  have "int ?n < int (2 ^ 63)" using assms(1) by (simp only: of_nat_less_iff)
  then have b: "0 \<le> sint cnt * uint (getElementSize ty)"
      "sint cnt * uint (getElementSize ty) < 2 ^ 63"
    unfolding p by simp_all
  show ?thesis
    unfolding convertAndCopy_raw_Inr np using b assms(2) by simp
qed

text \<open>
  Claim C5, as stated, at two inputs. With the count \<open>2 ^ 63\<close> and \<^verbatim>\<open>kINT8\<close>, the
  count stored in the \<^verbatim>\<open>int64_t\<close> member is negative, so is the byte size, and
  \<^verbatim>\<open>new char[nbBytes]\<close> throws inside the \<^verbatim>\<open>noexcept\<close> function: the process ends.
  With three bytes in the buffer and one \<^verbatim>\<open>kFLOAT\<close> element requested,
  \<^verbatim>\<open>std::copy_n\<close> reads a fourth byte that the buffer does not have. In neither case
  are \<^verbatim>\<open>count * elementSize\<close> bytes of the buffer copied and the cursor advanced.
\<close>

theorem convertAndCopy_raw_counterexample:
  "convertAndCopy_raw (WeightsWithOwnership_ctor kFLOAT) \<lparr>bytes = [], pos = 0\<rparr>
       9223372036854775808 DataType.kINT8
     = Inl (Terminate BadArrayNewLength,
            \<lparr>type = DataType.kINT8, values = None, count = 9223372036854775808\<rparr>)
   \<and> convertAndCopy_raw (WeightsWithOwnership_ctor kFLOAT) \<lparr>bytes = [1, 2, 3], pos = 0\<rparr>
       1 kFLOAT
     = Inl (UB InvalidRead,
            \<lparr>type = kFLOAT, values = Some (CharArray [0, 0, 0, 0]), count = 1\<rparr>)"
  by code_simp

text \<open>
  Claim C5, amended. For every buffer, cursor position, element count and data type
  such that \<open>n = count * elementSize(type)\<close> is below \<open>2 ^ 63\<close> and \<open>n\<close> bytes are
  there from the cursor position on, the raw overload returns with \<^verbatim>\<open>values\<close> pointing
  at a new array that holds exactly these \<open>n\<close> bytes, unchanged and in order, with the
  type and the count stored, and with the cursor advanced by exactly \<open>n\<close>.
\<close>

theorem convertAndCopy_raw_copies:
  assumes "unat cnt * unat (getElementSize ty) < 2 ^ 63"
    and "unat cnt * unat (getElementSize ty) \<le> length (bytes srcBuf) - pos srcBuf"
  shows "convertAndCopy_raw this srcBuf cnt ty =
           Inr (this\<lparr>type := ty, count := cnt,
                     values := Some (CharArray (take (unat cnt * unat (getElementSize ty))
                                                 (drop (pos srcBuf) (bytes srcBuf))))\<rparr>,
                srcBuf\<lparr>pos := pos srcBuf + unat cnt * unat (getElementSize ty)\<rparr>)
         \<and> length (take (unat cnt * unat (getElementSize ty))
                      (drop (pos srcBuf) (bytes srcBuf)))
             = unat cnt * unat (getElementSize ty)"
  using convertAndCopy_raw_result[OF assms] assms(2) by simp

theorem convertAndCopy_raw_copies_witness:
  "unat (2 :: 64 word) * unat (getElementSize kHALF) < 2 ^ 63
   \<and> unat (2 :: 64 word) * unat (getElementSize kHALF)
       \<le> length (bytes \<lparr>bytes = [9, 1, 2, 3, 4, 5, 6], pos = 1\<rparr>)
          - pos \<lparr>bytes = [9, 1, 2, 3, 4, 5, 6], pos = 1\<rparr>
   \<and> convertAndCopy_raw (WeightsWithOwnership_ctor kFLOAT)
         \<lparr>bytes = [9, 1, 2, 3, 4, 5, 6], pos = 1\<rparr> 2 kHALF
       = Inr (\<lparr>type = kHALF, values = Some (CharArray [1, 2, 3, 4]), count = 2\<rparr>,
              \<lparr>bytes = [9, 1, 2, 3, 4, 5, 6], pos = 5\<rparr>)"
proof -
  have h1: "unat (2 :: 64 word) * unat (getElementSize kHALF) < 2 ^ 63" by simp
  have h2: "unat (2 :: 64 word) * unat (getElementSize kHALF)
       \<le> length (bytes \<lparr>bytes = [9, 1, 2, 3, 4, 5, 6], pos = 1\<rparr>)
          - pos \<lparr>bytes = [9, 1, 2, 3, 4, 5, 6], pos = 1\<rparr>" by simp
  from convertAndCopy_raw_copies[OF h1 h2, of "WeightsWithOwnership_ctor kFLOAT"] h1 h2
  show ?thesis by (simp add: WeightsWithOwnership_ctor_def)
qed

text \<open>
  Deserializing what was serialized: when the buffer holds a payload of
  \<open>count * elementSize(type)\<close> bytes at the cursor, between any bytes written before and
  after it, the raw overload gives back the payload and leaves the cursor right behind it.
\<close>

lemma convertAndCopy_raw_round_trip:
  assumes "length payload = unat cnt * unat (getElementSize ty)"
    and "length payload < 2 ^ 63"
  shows "convertAndCopy_raw this \<lparr>bytes = before @ payload @ rest, pos = length before\<rparr> cnt ty =
           Inr (this\<lparr>type := ty, count := cnt, values := Some (CharArray payload)\<rparr>,
                \<lparr>bytes = before @ payload @ rest, pos = length before + length payload\<rparr>)"
proof -
  let ?c = "\<lparr>bytes = before @ payload @ rest, pos = length before\<rparr>"
  have 1: "unat cnt * unat (getElementSize ty) < 2 ^ 63" using assms by simp
  have 2: "unat cnt * unat (getElementSize ty) \<le> length (bytes ?c) - pos ?c"
    using assms(1) by simp
  show ?thesis
    using convertAndCopy_raw_result[OF 1 2, of this] assms(1) by simp
qed

subsection \<open>The unsupported destination type\<close>

text \<open>
  Claim C6. The typed overload throws the \<^verbatim>\<open>std::runtime_error\<close> for an unsupported
  type exactly when the destination type is neither \<^verbatim>\<open>kFLOAT\<close> nor \<^verbatim>\<open>kHALF\<close> (no
  other path throws a runtime error). It is an exception that reaches the caller, not
  an abort, and the object it leaves has the requested type and the source count
  stored and \<^verbatim>\<open>values\<close> as before the call: no buffer was allocated.
\<close>

theorem convertAndCopy_unsupported_type:
  "((\<exists>msg w. convertAndCopy h2f f2h this src ty = Inl (Throw (RuntimeError msg), w))
      \<longleftrightarrow> ty \<noteq> kFLOAT \<and> ty \<noteq> kHALF)
   \<and> (convertAndCopy h2f f2h this src ty
        = Inl (Throw (RuntimeError ''Unsupported DataType specified for plugin.''),
               this\<lparr>type := ty, count := count src\<rparr>)
      \<longleftrightarrow> ty \<noteq> kFLOAT \<and> ty \<noteq> kHALF)
   \<and> values (this\<lparr>type := ty, count := count src\<rparr>) = values this"
proof -
  consider (f) "ty = kFLOAT" | (h) "ty = kHALF" | (o) "ty \<noteq> kFLOAT" "ty \<noteq> kHALF" by blast
  then show ?thesis
  proof cases
    case f
    then show ?thesis
      by (auto simp: convertAndCopy_def Let_def copy_n_def new_array_def
          split: sum.splits if_splits dest: convert_loop_failure)
  next
    case h
    then show ?thesis
      by (auto simp: convertAndCopy_def Let_def copy_n_def new_array_def
          split: sum.splits if_splits dest: convert_loop_failure)
  next
    case o
    then show ?thesis by (simp add: convertAndCopy_def Let_def)
  qed
qed

theorem convertAndCopy_unsupported_type_witness:
  "DataType.kINT8 \<noteq> kFLOAT \<and> DataType.kINT8 \<noteq> kHALF
   \<and> convertAndCopy ucast ucast (WeightsWithOwnership_ctor kFLOAT)
        \<lparr>type = kFLOAT, values = Some (FloatArray [1, 2, 3]), count = 3\<rparr> DataType.kINT8
       = Inl (Throw (RuntimeError ''Unsupported DataType specified for plugin.''),
              \<lparr>type = DataType.kINT8, values = None, count = 3\<rparr>)"
  using convertAndCopy_unsupported_type
    [of ucast ucast "WeightsWithOwnership_ctor kFLOAT"
        "\<lparr>type = kFLOAT, values = Some (FloatArray [1, 2, 3]), count = 3\<rparr>" "DataType.kINT8"]
  by (simp add: WeightsWithOwnership_ctor_def)

subsection \<open>The size invariant\<close>

text \<open>
  Claim C9, as stated, on a new object (no allocation, count 0): the typed overload
  called with the unsupported type \<^verbatim>\<open>kINT8\<close> and a source of three elements throws
  after it has stored the type and the count 3, while \<^verbatim>\<open>values\<close> is still
  \<^verbatim>\<open>nullptr\<close>. The invariant held before the call and does not hold after it.
\<close>

theorem size_invariant_counterexample:
  "size_invariant (WeightsWithOwnership_ctor kFLOAT)
   \<and> convertAndCopy ucast ucast (WeightsWithOwnership_ctor kFLOAT)
        \<lparr>type = kFLOAT, values = Some (FloatArray [1, 2, 3]), count = 3\<rparr> DataType.kINT8
       = Inl (Throw (RuntimeError ''Unsupported DataType specified for plugin.''),
              \<lparr>type = DataType.kINT8, values = None, count = 3\<rparr>)
   \<and> \<not> size_invariant \<lparr>type = DataType.kINT8, values = None, count = 3\<rparr>"
  by code_simp

text \<open>
  Claim C9, amended. After every conversion that returns normally, in the typed or in
  the raw overload, the invariant holds: the allocation at \<^verbatim>\<open>values\<close> has
  \<open>count * elementSize(type)\<close> bytes for the stored count and type.
\<close>

theorem size_invariant_after_success:
  assumes "convertAndCopy h2f f2h this src ty = Inr w
           \<or> (\<exists>cur'. convertAndCopy_raw this cur cnt ty = Inr (w, cur'))"
  shows "size_invariant w"
proof -
  from assms have "type w = ty \<and> 0 \<le> sint (count w) * uint (getElementSize ty)
         \<and> sint (count w) * uint (getElementSize ty) < 2 ^ 63
         \<and> (\<exists>b. values w = Some b
                 \<and> int (byte_size b) = sint (count w) * uint (getElementSize ty))"
    using sized_after_typed sized_after_raw by blast
  then show ?thesis by (auto simp: size_invariant_def allocated_bytes_def)
qed

theorem size_invariant_after_success_witness:
  "convertAndCopy_raw (WeightsWithOwnership_ctor kFLOAT)
         \<lparr>bytes = [9, 1, 2, 3, 4, 5, 6], pos = 1\<rparr> 2 kHALF
       = Inr (\<lparr>type = kHALF, values = Some (CharArray [1, 2, 3, 4]), count = 2\<rparr>,
              \<lparr>bytes = [9, 1, 2, 3, 4, 5, 6], pos = 5\<rparr>)
   \<and> size_invariant \<lparr>type = kHALF, values = Some (CharArray [1, 2, 3, 4]), count = 2\<rparr>"
proof -
  have h: "convertAndCopy_raw (WeightsWithOwnership_ctor kFLOAT)
         \<lparr>bytes = [9, 1, 2, 3, 4, 5, 6], pos = 1\<rparr> 2 kHALF
       = Inr (\<lparr>type = kHALF, values = Some (CharArray [1, 2, 3, 4]), count = 2\<rparr>,
              \<lparr>bytes = [9, 1, 2, 3, 4, 5, 6], pos = 5\<rparr>)"
    by code_simp
  then have "\<exists>cur'. convertAndCopy_raw (WeightsWithOwnership_ctor kFLOAT)
         \<lparr>bytes = [9, 1, 2, 3, 4, 5, 6], pos = 1\<rparr> 2 kHALF
       = Inr (\<lparr>type = kHALF, values = Some (CharArray [1, 2, 3, 4]), count = 2\<rparr>, cur')"
    by blast
  from size_invariant_after_success[OF disjI2[OF this]] h show ?thesis by simp
qed

subsection \<open>What the typed overload computes\<close>

text \<open>
  A source of \<open>n\<close> readable elements, \<open>n\<close> within the range of the loop counter, is
  copied unchanged when the types agree and converted element by element when they
  differ.
\<close>

lemma convert_loop_map:
  assumes "0 \<le> cnt" "cnt \<le> 2 ^ 31 - 1" "nat cnt \<le> length s"
  shows "convert_loop f s (replicate (nat cnt) z) 0 cnt = Inr (map f (take (nat cnt) s))"
  using convert_loop_result[of 0 cnt s "replicate (nat cnt) z" f] assms by simp

lemma convertAndCopy_to_float:
  assumes "0 \<le> sint (count src)" "sint (count src) \<le> 2 ^ 31 - 1"
  shows "type src = kFLOAT \<Longrightarrow> nat (sint (count src)) \<le> length (floats_at (values src))
     \<Longrightarrow> convertAndCopy h2f f2h this src kFLOAT
         = Inr (this\<lparr>type := kFLOAT, count := count src,
                     values := Some (FloatArray (take (nat (sint (count src)))
                                                  (floats_at (values src))))\<rparr>)"
    and "type src = kHALF \<Longrightarrow> nat (sint (count src)) \<le> length (halfs_at (values src))
     \<Longrightarrow> convertAndCopy h2f f2h this src kFLOAT
         = Inr (this\<lparr>type := kFLOAT, count := count src,
                     values := Some (FloatArray (map h2f (take (nat (sint (count src)))
                                                           (halfs_at (values src)))))\<rparr>)"
proof -
  have n: "new_array (sint (count src)) 4 = Inr (nat (sint (count src)))"
    using assms by (simp add: new_array_def)
  show "type src = kFLOAT \<Longrightarrow> nat (sint (count src)) \<le> length (floats_at (values src))
     \<Longrightarrow> convertAndCopy h2f f2h this src kFLOAT
         = Inr (this\<lparr>type := kFLOAT, count := count src,
                     values := Some (FloatArray (take (nat (sint (count src)))
                                                  (floats_at (values src))))\<rparr>)"
    by (simp add: convertAndCopy_def n copy_n_def Let_def)
  show "type src = kHALF \<Longrightarrow> nat (sint (count src)) \<le> length (halfs_at (values src))
     \<Longrightarrow> convertAndCopy h2f f2h this src kFLOAT
         = Inr (this\<lparr>type := kFLOAT, count := count src,
                     values := Some (FloatArray (map h2f (take (nat (sint (count src)))
                                                           (halfs_at (values src)))))\<rparr>)"
    using assms by (simp add: convertAndCopy_def n convert_loop_map Let_def)
qed

lemma convertAndCopy_to_half:
  assumes "0 \<le> sint (count src)" "sint (count src) \<le> 2 ^ 31 - 1"
  shows "type src = kHALF \<Longrightarrow> nat (sint (count src)) \<le> length (halfs_at (values src))
     \<Longrightarrow> convertAndCopy h2f f2h this src kHALF
         = Inr (this\<lparr>type := kHALF, count := count src,
                     values := Some (HalfArray (take (nat (sint (count src)))
                                                 (halfs_at (values src))))\<rparr>)"
    and "type src = kFLOAT \<Longrightarrow> nat (sint (count src)) \<le> length (floats_at (values src))
     \<Longrightarrow> convertAndCopy h2f f2h this src kHALF
         = Inr (this\<lparr>type := kHALF, count := count src,
                     values := Some (HalfArray (map f2h (take (nat (sint (count src)))
                                                          (floats_at (values src)))))\<rparr>)"
proof -
  have n: "new_array (sint (count src)) 2 = Inr (nat (sint (count src)))"
    using assms by (simp add: new_array_def)
  show "type src = kHALF \<Longrightarrow> nat (sint (count src)) \<le> length (halfs_at (values src))
     \<Longrightarrow> convertAndCopy h2f f2h this src kHALF
         = Inr (this\<lparr>type := kHALF, count := count src,
                     values := Some (HalfArray (take (nat (sint (count src)))
                                                 (halfs_at (values src))))\<rparr>)"
    by (simp add: convertAndCopy_def n copy_n_def Let_def)
  show "type src = kFLOAT \<Longrightarrow> nat (sint (count src)) \<le> length (floats_at (values src))
     \<Longrightarrow> convertAndCopy h2f f2h this src kHALF
         = Inr (this\<lparr>type := kHALF, count := count src,
                     values := Some (HalfArray (map f2h (take (nat (sint (count src)))
                                                          (floats_at (values src)))))\<rparr>)"
    using assms by (simp add: convertAndCopy_def n convert_loop_map Let_def)
qed

text \<open>
  Converting a \<^verbatim>\<open>float\<close> source to \<^verbatim>\<open>half\<close> and the result back to \<^verbatim>\<open>float\<close>
  applies \<^verbatim>\<open>__half2float\<close> after \<^verbatim>\<open>__float2half\<close> to every element; with the same
  type on both sides the elements come back unchanged. How far
  \<^verbatim>\<open>__half2float (__float2half x)\<close> is from \<open>x\<close> is a property of the two intrinsics,
  which are parameters here.
\<close>

lemma convertAndCopy_float_half_float:
  assumes "type src = kFLOAT" "values src = Some (FloatArray xs)"
    and "0 \<le> sint (count src)" "sint (count src) \<le> 2 ^ 31 - 1"
    and "nat (sint (count src)) \<le> length xs"
  shows "\<exists>w. convertAndCopy h2f f2h this src kHALF = Inr w
           \<and> convertAndCopy h2f f2h that w kFLOAT
               = Inr (that\<lparr>type := kFLOAT, count := count src,
                           values := Some (FloatArray (map (h2f \<circ> f2h)
                                             (take (nat (sint (count src))) xs)))\<rparr>)"
proof -
  let ?n = "nat (sint (count src))"
  let ?w = "this\<lparr>type := kHALF, count := count src,
                     values := Some (HalfArray (map f2h (take ?n xs)))\<rparr>"
  have 1: "convertAndCopy h2f f2h this src kHALF = Inr ?w"
    using convertAndCopy_to_half(2)[OF assms(3,4) assms(1), of h2f f2h this] assms(2,5)
    by simp
  have "convertAndCopy h2f f2h that ?w kFLOAT
          = Inr (that\<lparr>type := kFLOAT, count := count ?w,
                       values := Some (FloatArray (map h2f (take (nat (sint (count ?w)))
                                                           (halfs_at (values ?w)))))\<rparr>)"
    using assms(3,4,5) by (intro convertAndCopy_to_float(2)) simp_all
  then show ?thesis using 1 assms(5) by simp
qed

lemma convertAndCopy_float_float_float:
  assumes "type src = kFLOAT" "values src = Some (FloatArray xs)"
    and "0 \<le> sint (count src)" "sint (count src) \<le> 2 ^ 31 - 1"
    and "nat (sint (count src)) \<le> length xs"
  shows "\<exists>w. convertAndCopy h2f f2h this src kFLOAT = Inr w
           \<and> convertAndCopy h2f f2h that w kFLOAT
               = Inr (that\<lparr>type := kFLOAT, count := count src,
                           values := Some (FloatArray (take (nat (sint (count src))) xs))\<rparr>)"
proof -
  let ?n = "nat (sint (count src))"
  let ?w = "this\<lparr>type := kFLOAT, count := count src,
                     values := Some (FloatArray (take ?n xs))\<rparr>"
  have 1: "convertAndCopy h2f f2h this src kFLOAT = Inr ?w"
    using convertAndCopy_to_float(1)[OF assms(3,4) assms(1), of h2f f2h this] assms(2,5)
    by simp
  have "convertAndCopy h2f f2h that ?w kFLOAT
          = Inr (that\<lparr>type := kFLOAT, count := count ?w,
                       values := Some (FloatArray (take (nat (sint (count ?w)))
                                                    (floats_at (values ?w))))\<rparr>)"
    using assms(3,4,5) by (intro convertAndCopy_to_float(1)) simp_all
  then show ?thesis using 1 assms(5) by simp
qed

lemma convertAndCopy_half_float_half:
  assumes "type src = kHALF" "values src = Some (HalfArray xs)"
    and "0 \<le> sint (count src)" "sint (count src) \<le> 2 ^ 31 - 1"
    and "nat (sint (count src)) \<le> length xs"
  shows "\<exists>w. convertAndCopy h2f f2h this src kFLOAT = Inr w
           \<and> convertAndCopy h2f f2h that w kHALF
               = Inr (that\<lparr>type := kHALF, count := count src,
                           values := Some (HalfArray (map (f2h \<circ> h2f)
                                             (take (nat (sint (count src))) xs)))\<rparr>)"
proof -
  let ?n = "nat (sint (count src))"
  let ?w = "this\<lparr>type := kFLOAT, count := count src,
                     values := Some (FloatArray (map h2f (take ?n xs)))\<rparr>"
  have 1: "convertAndCopy h2f f2h this src kFLOAT = Inr ?w"
    using convertAndCopy_to_float(2)[OF assms(3,4) assms(1), of h2f f2h this] assms(2,5)
    by simp
  have "convertAndCopy h2f f2h that ?w kHALF
          = Inr (that\<lparr>type := kHALF, count := count ?w,
                       values := Some (HalfArray (map f2h (take (nat (sint (count ?w)))
                                                          (floats_at (values ?w)))))\<rparr>)"
    using assms(3,4,5) by (intro convertAndCopy_to_half(2)) simp_all
  then show ?thesis using 1 assms(5) by simp
qed

lemma convertAndCopy_half_half_half:
  assumes "type src = kHALF" "values src = Some (HalfArray xs)"
    and "0 \<le> sint (count src)" "sint (count src) \<le> 2 ^ 31 - 1"
    and "nat (sint (count src)) \<le> length xs"
  shows "\<exists>w. convertAndCopy h2f f2h this src kHALF = Inr w
           \<and> convertAndCopy h2f f2h that w kHALF
               = Inr (that\<lparr>type := kHALF, count := count src,
                           values := Some (HalfArray (take (nat (sint (count src))) xs))\<rparr>)"
proof -
  let ?n = "nat (sint (count src))"
  let ?w = "this\<lparr>type := kHALF, count := count src,
                     values := Some (HalfArray (take ?n xs))\<rparr>"
  have 1: "convertAndCopy h2f f2h this src kHALF = Inr ?w"
    using convertAndCopy_to_half(1)[OF assms(3,4) assms(1), of h2f f2h this] assms(2,5)
    by simp
  have "convertAndCopy h2f f2h that ?w kHALF
          = Inr (that\<lparr>type := kHALF, count := count ?w,
                       values := Some (HalfArray (take (nat (sint (count ?w)))
                                                   (halfs_at (values ?w))))\<rparr>)"
    using assms(3,4,5) by (intro convertAndCopy_to_half(1)) simp_all
  then show ?thesis using 1 assms(5) by simp
qed

subsection \<open>The counter of the conversion loop\<close>

text \<open>
  When the count is above \<^verbatim>\<open>INT_MAX\<close> and the source has that many elements, the
  \<^verbatim>\<open>int\<close> counter of the conversion loop reaches \<^verbatim>\<open>INT_MAX\<close> and is incremented:
  the loop ends in signed overflow, whatever the conversion is.
\<close>

lemma convert_loop_overflow:
  "0 \<le> it \<Longrightarrow> it \<le> 2 ^ 31 - 1 \<Longrightarrow> 2 ^ 31 - 1 < cnt \<Longrightarrow> cnt \<le> int (length s)
     \<Longrightarrow> convert_loop f s d it cnt = Inl (UB SignedOverflow)"
proof (induction f s d it cnt rule: convert_loop.induct)
  case (1 f s d it cnt)
  have c: "it < cnt" using "1.prems" by simp
  have r: "\<not> (it < 0 \<or> int (length s) \<le> it)" using "1.prems" by simp
  show ?case
  proof (cases "it = 2 ^ 31 - 1")
    case True
    then show ?thesis using c r by (subst convert_loop.simps) simp
  next
    case False
    have l: "length (d[nat it := f (s ! nat it)]) = length d" by simp
    have "convert_loop f s (d[nat it := f (s ! nat it)]) (it + 1) cnt = Inl (UB SignedOverflow)"
      using "1.prems" False by (intro "1.IH"[OF c r False]) simp_all
    then show ?thesis using c r False by (subst convert_loop.simps) simp
  qed
qed

text \<open>
  Claim C4, at a source of \<open>2 ^ 31\<close> \<^verbatim>\<open>float\<close> elements converted to \<^verbatim>\<open>kHALF\<close>: the
  count and the byte size are in range and every element is readable, but the first
  conversion of the round trip does not return. Its loop counter is declared by
  \<^verbatim>\<open>auto it = 0\<close>, an \<^verbatim>\<open>int\<close>, and overflows on the way to the \<^verbatim>\<open>int64_t\<close> count;
  the loops of \<^verbatim>\<open>convertAndCopyToDevice\<close> over the same kind of source count with a
  \<^verbatim>\<open>size_t\<close>. This holds for every pair of conversions \<open>h2f\<close> and \<open>f2h\<close>, so no element
  is recovered, within any tolerance.
\<close>

theorem convertAndCopy_counter_overflow:
  "\<exists>w. convertAndCopy h2f f2h this
          \<lparr>type = kFLOAT, values = Some (FloatArray (replicate 2147483648 0)),
             count = 2147483648\<rparr> kHALF
        = Inl (UB SignedOverflow, w)"
proof -
  have n: "new_array 2147483648 2 = Inr 2147483648"
    by (simp add: new_array_def)
  have "convert_loop f2h (replicate 2147483648 (0 :: 32 word))
          (replicate 2147483648 (0 :: 16 word)) 0 2147483648 = Inl (UB SignedOverflow)"
    by (rule convert_loop_overflow) simp_all
  then show ?thesis
    by (simp add: convertAndCopy_def n Let_def)
qed

end
